theory Spec2Isabelle
  imports Complex_Main "HOL-Library.AList" "HOL-Library.Sublist"
begin

section \<open>Georeferencing photographs against a GPX track\<close>

text \<open>
  A shallow embedding of \<^verbatim>\<open>georeference.py\<close>. The script is a short pipeline over
  pandas objects, so the embedding writes out what each pandas call does to the data:

  \<^item> a \<^verbatim>\<open>datetime64[ns]\<close> value is an \<open>int\<close>, the nanoseconds since the epoch, and a
    \<^verbatim>\<open>Timedelta\<close> is an \<open>int\<close> of nanoseconds;
  \<^item> a \<^verbatim>\<open>Series\<close> or \<^verbatim>\<open>DataFrame\<close> is an association list from index label to row, in
    row order; \<^verbatim>\<open>obj.loc[k] = v\<close> and \<^verbatim>\<open>series[k] = v\<close> overwrite the row of an
    existing label and append a row for a new one (\<open>AList.update\<close>);
  \<^item> a float cell is a \<open>rat option\<close>: \<open>None\<close> is NaN and the arithmetic is exact, so
    the rounding of float64 is not part of the model;
  \<^item> a raised exception is \<open>Inl\<close> of its class name;
  \<^item> the external programs and parsers (exiftool, gpxpy, the directory listing) are
    inputs: a directory is the list of its file names with the capture time exiftool
    reports for each, a GPX file the tracks, segments and points gpxpy returns, and
    every call of the exiftool writer is appended to a log.

  The pandas calls are read as pandas 1.x runs them, the version the script is written
  for: it resamples with the alias \<^verbatim>\<open>"100L"\<close> and builds a frame with the unit-less
  dtype \<^verbatim>\<open>"datetime64"\<close>, which later versions refuse.
\<close>

subsection \<open>Exceptions and time\<close>

datatype exn = Exn string

abbreviation ValueError :: exn where
  "ValueError \<equiv> Exn ''ValueError''"

abbreviation UnboundLocalError :: exn where
  "UnboundLocalError \<equiv> Exn ''UnboundLocalError''"

type_synonym timestamp = int

type_synonym timedelta = int

subsection \<open>File names\<close>

definition RAW_SUFFIX :: string where
  "RAW_SUFFIX = ''NEF''"

definition OTHER_SUFFIXES :: "string list" where
  "OTHER_SUFFIXES = [''jpg'', ''JPG'', ''jpeg'', ''tiff'', ''tif'']"

text \<open>\<^verbatim>\<open>s.split(sep)\<close> for a one-character separator: never empty, \<^verbatim>\<open>"".split(".")\<close> is
  \<^verbatim>\<open>[""]\<close>.\<close>

fun split_on :: "char \<Rightarrow> string \<Rightarrow> string list" where
  "split_on sep [] = [[]]"
| "split_on sep (c # cs) =
     (if c = sep then [] # split_on sep cs
      else (case split_on sep cs of
              w # ws \<Rightarrow> (c # w) # ws
            | [] \<Rightarrow> [[c]]))"

text \<open>\<^verbatim>\<open>s.replace(old, new)\<close> for a non-empty \<open>old\<close>: every non-overlapping occurrence,
  from the left. The counter is the number of characters of a matched occurrence still
  to skip.\<close>

fun replace_from :: "string \<Rightarrow> string \<Rightarrow> nat \<Rightarrow> string \<Rightarrow> string" where
  "replace_from old new k [] = []"
| "replace_from old new (Suc k) (c # cs) = replace_from old new k cs"
| "replace_from old new 0 (c # cs) =
     (if prefix old (c # cs) then new @ replace_from old new (length old - 1) cs
      else c # replace_from old new 0 cs)"

definition replace :: "string \<Rightarrow> string \<Rightarrow> string \<Rightarrow> string" where
  "replace s old new = replace_from old new 0 s"

text \<open>\<^verbatim>\<open>needle in haystack\<close> on strings: a contiguous substring.\<close>

fun contains :: "string \<Rightarrow> string \<Rightarrow> bool" where
  "contains [] needle = (needle = [])"
| "contains (c # cs) needle = (prefix needle (c # cs) \<or> contains cs needle)"

definition check_if_valid_filename :: "string \<Rightarrow> bool" where
  "check_if_valid_filename filename =
     (if length (split_on CHR ''.'' filename) < 2 then False
      else if last (split_on CHR ''.'' filename) \<notin> set ([RAW_SUFFIX] @ OTHER_SUFFIXES) then False
      else True)"

subsection \<open>Capture times of a directory\<close>

text \<open>A directory as \<^verbatim>\<open>get_cam_times\<close> sees it: the names \<^verbatim>\<open>os.listdir\<close> returns, in
  its order, each with the \<^verbatim>\<open>Create Date\<close> exiftool prints for that file.\<close>

type_synonym directory = "(string \<times> timestamp) list"

text \<open>One round of the loop of \<^verbatim>\<open>get_cam_times\<close>: a file that is no image is skipped,
  the capture time of an image is stored under its name.\<close>

definition add_cam_time ::
  "string \<times> timestamp \<Rightarrow> (string \<times> timestamp) list \<Rightarrow> (string \<times> timestamp) list" where
  "add_cam_time entry cam_times =
     (case entry of (file, date) \<Rightarrow>
        if \<not> check_if_valid_filename file then cam_times
        else AList.update file date cam_times)"

definition get_cam_times :: "directory \<Rightarrow> (string \<times> timestamp) list" where
  "get_cam_times dir = fold add_cam_time dir []"

subsection \<open>The clock offset\<close>

text \<open>The \<^verbatim>\<open>times\<close> frame: one row per file name, with the columns \<^verbatim>\<open>cam\<close> and
  \<^verbatim>\<open>gps\<close>; \<open>None\<close> is NaT. The rows come from the camera times; every line of the GPS
  time file sets the \<^verbatim>\<open>gps\<close> cell of its row, adding the row when the name is new.\<close>

type_synonym times_frame = "(string \<times> timestamp option \<times> timestamp option) list"

definition set_gps :: "string \<times> timestamp \<Rightarrow> times_frame \<Rightarrow> times_frame" where
  "set_gps line frame =
     (case line of (cam, gps_time) \<Rightarrow>
        AList.update cam
          ((case map_of frame cam of Some (c, g) \<Rightarrow> c | None \<Rightarrow> None), Some gps_time) frame)"

definition build_times :: "(string \<times> timestamp) list \<Rightarrow> (string \<times> timestamp) list \<Rightarrow> times_frame" where
  "build_times cam_times gps_lines =
     fold set_gps gps_lines (map (\<lambda>(file, t). (file, Some t, None)) cam_times)"

text \<open>\<^verbatim>\<open>times["cam"] - times["gps"]\<close>: NaT wherever one side is.\<close>

definition diff_column :: "times_frame \<Rightarrow> timedelta option list" where
  "diff_column frame =
     map (\<lambda>(file, c, g).
            (case c of None \<Rightarrow> None
             | Some ct \<Rightarrow> (case g of None \<Rightarrow> None | Some gt \<Rightarrow> Some (ct - gt)))) frame"

text \<open>\<^verbatim>\<open>Series.mean()\<close> of a \<^verbatim>\<open>timedelta64[ns]\<close> column skips NaT, divides the sum of the
  nanosecond counts by their number in float64 and truncates the quotient to an integer
  count of nanoseconds; an empty or all-NaT column has the mean NaT. While the sum stays
  below \<open>2^53\<close> nanoseconds (104 days) the float quotient truncates to the same integer
  as the exact one, which is what the model computes.\<close>

definition trunc_div :: "int \<Rightarrow> int \<Rightarrow> int" where
  "trunc_div a n = (if 0 \<le> a then a div n else - ((- a) div n))"

definition mean :: "timedelta option list \<Rightarrow> timedelta option" where
  "mean col =
     (case List.map_filter (\<lambda>d. d) col of
        [] \<Rightarrow> None
      | d # ds \<Rightarrow> Some (trunc_div (sum_list (d # ds)) (int (length (d # ds)))))"

text \<open>\<^verbatim>\<open>Timedelta.microseconds\<close>: the microseconds within the second, from \<open>0\<close> to
  \<open>999999\<close>, also for a negative duration (which has negative days and non-negative
  seconds and microseconds). The nanoseconds below the microsecond are a separate
  component.\<close>

definition microseconds :: "timedelta \<Rightarrow> int" where
  "microseconds d = (d div 1000) mod 1000000"

text \<open>Python's \<^verbatim>\<open>round(a / b)\<close> of two integers with \<open>0 < b\<close>: the nearest integer, a
  tie going to the even one. For \<open>b = 10^5\<close> and \<open>0 \<le> a < 10^6\<close> the float quotient is
  exact at the ties and too far from a tie elsewhere for its rounding error to matter.\<close>

definition py_round_div :: "int \<Rightarrow> int \<Rightarrow> int" where
  "py_round_div a b =
     (let q = a div b; r = a mod b
      in if 2 * r < b then q
         else if b < 2 * r then q + 1
         else if even q then q else q + 1)"

text \<open>Lines 90 and 91: the offset in microseconds that takes the microsecond component
  to a multiple of \<open>10^5\<close>, added to the mean.\<close>

definition round_diff :: "timedelta \<Rightarrow> timedelta" where
  "round_diff diff =
     (let offset = py_round_div (microseconds diff) 100000 * 100000 - microseconds diff
      in diff + 1000 * offset)"

text \<open>The mean of no difference is NaT, whose \<^verbatim>\<open>microseconds\<close> is NaN, and
  \<^verbatim>\<open>round(nan)\<close> raises \<^verbatim>\<open>ValueError\<close>.\<close>

definition get_time_diff :: "directory \<Rightarrow> (string \<times> timestamp) list \<Rightarrow> exn + timedelta" where
  "get_time_diff photo_sync_directory gps_time_file =
     (case mean (diff_column (build_times (get_cam_times photo_sync_directory) gps_time_file)) of
        None \<Rightarrow> Inl ValueError
      | Some diff \<Rightarrow> Inr (round_diff diff))"

subsection \<open>The GPX track\<close>

text \<open>A track point as gpxpy returns it; the elevation is optional in GPX.\<close>

record point =
  time :: timestamp
  longitude :: rat
  latitude :: rat
  elevation :: "rat option"

type_synonym cell = "rat option"

text \<open>A row of the \<^verbatim>\<open>coords\<close> frame: the columns \<^verbatim>\<open>lon\<close>, \<^verbatim>\<open>lat\<close> and \<^verbatim>\<open>elev\<close>.\<close>

type_synonym position = "cell \<times> cell \<times> cell"

type_synonym coords_frame = "(timestamp \<times> position) list"

definition position_of :: "point \<Rightarrow> position" where
  "position_of p = (Some (longitude p), Some (latitude p), elevation p)"

text \<open>\<^verbatim>\<open>coords.loc[pd.to_datetime(point.time)] = ...\<close>: the row of a time already in the
  index is overwritten, a new time gets a new last row.\<close>

definition set_point :: "point \<Rightarrow> coords_frame \<Rightarrow> coords_frame" where
  "set_point p coords = AList.update (time p) (position_of p) coords"

definition read_points :: "point list \<Rightarrow> coords_frame" where
  "read_points pts = fold set_point pts []"

text \<open>A GPX file is its tracks, each a list of segments, each a list of points; the
  three nested loops visit the points in file order.\<close>

definition read_gpx :: "point list list list \<Rightarrow> coords_frame" where
  "read_gpx gpx = read_points (concat (concat gpx))"

subsection \<open>Resampling to 10 Hz\<close>

text \<open>\<^verbatim>\<open>resample("100L")\<close>: bins of 100 ms, anchored at midnight of the first day, closed
  and labelled on the left. A day is a whole number of bins, so a bin starts at every
  multiple of 100 ms since the epoch.\<close>

definition freq :: timedelta where
  "freq = 100000000"

definition floor_freq :: "timestamp \<Rightarrow> timestamp" where
  "floor_freq t = t - t mod freq"

text \<open>The resampler sorts the frame by its index first.\<close>

definition sort_index :: "coords_frame \<Rightarrow> coords_frame" where
  "sort_index coords = sort_key fst coords"

text \<open>The new index for a sorted index \<open>ax\<close>: the bin starts from the bin of the first
  time to the bin of the last one.\<close>

definition res_index :: "timestamp list \<Rightarrow> timestamp list" where
  "res_index ax =
     (if ax = [] then []
      else map (\<lambda>k. floor_freq (hd ax) + int k * freq)
             [0 ..< Suc (nat ((floor_freq (last ax) - floor_freq (hd ax)) div freq))])"

text \<open>\<^verbatim>\<open>ax.inferred_freq\<close> is the resampling frequency when the index has three or more
  times, each 100 ms after the one before.\<close>

definition equal_sampling :: "timestamp list \<Rightarrow> bool" where
  "equal_sampling ax \<longleftrightarrow>
     3 \<le> length ax \<and> list_all (\<lambda>(a, b). b - a = freq) (zip ax (tl ax))"

definition nan_position :: position where
  "nan_position = (None, None, None)"

definition reindex :: "coords_frame \<Rightarrow> timestamp list \<Rightarrow> coords_frame" where
  "reindex obj idx =
     map (\<lambda>t. (t, case map_of obj t of Some r \<Rightarrow> r | None \<Rightarrow> nan_position)) idx"

text \<open>\<^verbatim>\<open>Resampler._upsample\<close>: when the index already has the frequency the rows are kept
  and relabelled with the new index; otherwise the frame is reindexed, which keeps the
  rows whose time is a label of the new index and fills every other label with NaN.\<close>

definition upsample :: "coords_frame \<Rightarrow> coords_frame" where
  "upsample obj =
     (let ax = map fst obj; idx = res_index ax
      in if equal_sampling ax then zip idx (map snd obj) else reindex obj idx)"

subsection \<open>Interpolation\<close>

text \<open>\<^verbatim>\<open>interpolate()\<close> with its defaults is linear in the row position, forwards: a NaN
  between two valid cells lies on the line through them (numpy's \<^verbatim>\<open>interp\<close> over the
  positions), a NaN after the last valid cell takes its value, a NaN before the first
  valid cell stays.\<close>

definition valid_before :: "cell list \<Rightarrow> nat \<Rightarrow> nat option" where
  "valid_before ys i = List.find (\<lambda>j. ys ! j \<noteq> None) (rev [0 ..< i])"

definition valid_after :: "cell list \<Rightarrow> nat \<Rightarrow> nat option" where
  "valid_after ys i = List.find (\<lambda>j. ys ! j \<noteq> None) [Suc i ..< length ys]"

definition interp_between :: "nat \<Rightarrow> cell \<Rightarrow> nat \<Rightarrow> cell \<Rightarrow> nat \<Rightarrow> cell" where
  "interp_between a ya b yb i =
     (case ya of None \<Rightarrow> None
      | Some va \<Rightarrow>
          (case yb of None \<Rightarrow> None
           | Some vb \<Rightarrow> Some ((vb - va) / of_nat (b - a) * of_nat (i - a) + va)))"

definition interp_at :: "cell list \<Rightarrow> nat \<Rightarrow> cell" where
  "interp_at ys i =
     (case ys ! i of Some v \<Rightarrow> Some v
      | None \<Rightarrow>
          (case valid_before ys i of None \<Rightarrow> None
           | Some a \<Rightarrow>
               (case valid_after ys i of None \<Rightarrow> ys ! a
                | Some b \<Rightarrow> interp_between a (ys ! a) b (ys ! b) i)))"

definition interpolate_1d :: "cell list \<Rightarrow> cell list" where
  "interpolate_1d ys = map (interp_at ys) [0 ..< length ys]"

definition interpolate :: "coords_frame \<Rightarrow> coords_frame" where
  "interpolate df =
     zip (map fst df)
       (zip (interpolate_1d (map (\<lambda>(t, a, b, c). a) df))
          (zip (interpolate_1d (map (\<lambda>(t, a, b, c). b) df))
               (interpolate_1d (map (\<lambda>(t, a, b, c). c) df))))"

text \<open>The index of a frame: its timestamps, in row order.\<close>

definition grid :: "coords_frame \<Rightarrow> timestamp list" where
  "grid df = map fst df"

text \<open>\<^verbatim>\<open>read_gpx(gpx_file).resample("100L").interpolate()\<close>.\<close>

definition resample_interpolate :: "coords_frame \<Rightarrow> coords_frame" where
  "resample_interpolate coords = interpolate (upsample (sort_index coords))"


subsection \<open>Matching photographs\<close>

text \<open>\<^verbatim>\<open>coords["photo"] = destination_cam_times\<close> aligns the series with the index of the
  frame: each row gets the photograph whose corrected time equals its label, NaN when
  there is none. Aligning a series whose index repeats a time raises \<^verbatim>\<open>ValueError\<close>
  (cannot reindex from a duplicate axis). An empty frame takes the index of the series,
  its other columns NaN.\<close>

type_synonym photo_frame = "(timestamp \<times> position \<times> string option) list"

definition assign_photo :: "coords_frame \<Rightarrow> (timestamp \<times> string) list \<Rightarrow> exn + photo_frame" where
  "assign_photo coords series =
     (if coords = [] then Inr (map (\<lambda>(t, file). (t, nan_position, Some file)) series)
      else if \<not> distinct (map fst series) then Inl ValueError
      else Inr (map (\<lambda>(t, r). (t, r, map_of series t)) coords))"

text \<open>A row without NaN, as \<^verbatim>\<open>dropna()\<close> leaves it.\<close>

record coord =
  lon :: rat
  lat :: rat
  elev :: rat
  photo :: string

definition complete_row :: "timestamp \<times> position \<times> string option \<Rightarrow> (timestamp \<times> coord) option" where
  "complete_row row =
     (case row of (t, (a, b, c), p) \<Rightarrow>
        (case a of None \<Rightarrow> None | Some a' \<Rightarrow>
        (case b of None \<Rightarrow> None | Some b' \<Rightarrow>
        (case c of None \<Rightarrow> None | Some c' \<Rightarrow>
        (case p of None \<Rightarrow> None | Some p' \<Rightarrow>
           Some (t, \<lparr>lon = a', lat = b', elev = c', photo = p'\<rparr>))))))"

definition dropna :: "photo_frame \<Rightarrow> (timestamp \<times> coord) list" where
  "dropna df = List.map_filter complete_row df"

subsection \<open>Writing the location tags\<close>

text \<open>One call of the exiftool writer: the file and the longitude, latitude and altitude
  written to it.\<close>

type_synonym exif_write = "string \<times> rat \<times> rat \<times> rat"

text \<open>The inner loop of \<^verbatim>\<open>georeference\<close> over the rows still to match. Every round
  binds \<^verbatim>\<open>coord\<close> to its row; the first row whose \<^verbatim>\<open>photo\<close> contains the file name
  without its suffix ends the loop and is dropped. The result is the binding of
  \<^verbatim>\<open>coord\<close> after the loop (\<open>None\<close>: never bound) and the label dropped.\<close>

fun iterrows_loop ::
  "string \<Rightarrow> (timestamp \<times> coord) list \<Rightarrow> coord option \<Rightarrow> coord option \<times> timestamp option" where
  "iterrows_loop stem [] c = (c, None)"
| "iterrows_loop stem ((i, r) # rows) c =
     (if contains (photo r) stem then (Some r, Some i)
      else iterrows_loop stem rows (Some r))"

definition drop_label :: "timestamp option \<Rightarrow> (timestamp \<times> coord) list \<Rightarrow> (timestamp \<times> coord) list" where
  "drop_label dropped cam_coords =
     (case dropped of None \<Rightarrow> cam_coords
      | Some i \<Rightarrow> filter (\<lambda>(j, r). j \<noteq> i) cam_coords)"

definition file_stem :: "string \<Rightarrow> string" where
  "file_stem file = replace file (''.'' @ last (split_on CHR ''.'' file)) []"

text \<open>The outer loop over the files of the destination folder, with the writes made so
  far. Reading \<^verbatim>\<open>coord\<close> while it was never bound raises \<^verbatim>\<open>UnboundLocalError\<close>; the
  writes made before stay made.\<close>

fun georeference_loop ::
  "(timestamp \<times> coord) list \<Rightarrow> coord option \<Rightarrow> string list \<Rightarrow> exif_write list
   \<Rightarrow> exif_write list \<times> exn option" where
  "georeference_loop cam_coords c [] written = (written, None)"
| "georeference_loop cam_coords c (file # files) written =
     (if \<not> check_if_valid_filename file then georeference_loop cam_coords c files written
      else (case fst (iterrows_loop (file_stem file) cam_coords c) of
              None \<Rightarrow> (written, Some UnboundLocalError)
            | Some r \<Rightarrow>
                georeference_loop
                  (drop_label (snd (iterrows_loop (file_stem file) cam_coords c)) cam_coords)
                  (Some r) files (written @ [(file, lon r, lat r, elev r)])))"

definition georeference :: "photo_frame \<Rightarrow> string list \<Rightarrow> exif_write list \<times> exn option" where
  "georeference coords files = georeference_loop (dropna coords) None files []"

subsection \<open>The whole run\<close>

text \<open>What a run leaves behind: the coordinate table if it was written, the exiftool
  writes, and the exception that ended it, if any.\<close>

record run =
  csv :: "(timestamp \<times> coord) list option"
  writes :: "exif_write list"
  raised :: "exn option"

definition main :: "directory \<Rightarrow> (string \<times> timestamp) list \<Rightarrow> directory \<Rightarrow> point list list list \<Rightarrow> run" where
  "main photo_sync_directory gps_time_file destination_folder gpx_file =
     (case get_time_diff photo_sync_directory gps_time_file of
        Inl e \<Rightarrow> \<lparr>csv = None, writes = [], raised = Some e\<rparr>
      | Inr time_diff \<Rightarrow>
          (case assign_photo (resample_interpolate (read_gpx gpx_file))
                  (map (\<lambda>(file, t). (t - time_diff, file)) (get_cam_times destination_folder)) of
             Inl e \<Rightarrow> \<lparr>csv = None, writes = [], raised = Some e\<rparr>
           | Inr coords \<Rightarrow>
               \<lparr>csv = Some (dropna coords),
                writes = fst (georeference coords (map fst destination_folder)),
                raised = snd (georeference coords (map fst destination_folder))\<rparr>))"

text \<open>The invariant of the \<^verbatim>\<open>times\<close> frame: a row with a camera time is named by a
  file of \<open>A\<close>, a row with a GPS time by a name of \<open>B\<close>.\<close>

definition rows_from :: "string set \<Rightarrow> string set \<Rightarrow> times_frame \<Rightarrow> bool" where
  "rows_from A B frame \<longleftrightarrow>
     (\<forall>f c g. (f, c, g) \<in> set frame \<longrightarrow> (c \<noteq> None \<longrightarrow> f \<in> A) \<and> (g \<noteq> None \<longrightarrow> f \<in> B))"

section \<open>Properties\<close>

subsection \<open>The clock offset\<close>

lemma py_round_div_cases:
  assumes "0 < b"
  shows "py_round_div a b = a div b \<and> 2 * (a mod b) \<le> b
       \<or> py_round_div a b = a div b + 1 \<and> b \<le> 2 * (a mod b)"
  unfolding py_round_div_def Let_def by auto

text \<open>A mean of whole microseconds is taken to a nearest multiple of a tenth of a
  second.\<close>

lemma round_diff_whole_microseconds:
  assumes "diff mod 1000 = 0"
  shows "round_diff diff mod 100000000 = 0 \<and> \<bar>round_diff diff - diff\<bar> \<le> 50000000"
proof -
  define u where "u = diff div 1000"
  define m where "m = u mod 1000000"
  define k where "k = py_round_div m 100000"
  define q where "q = m div 100000"
  define r where "r = m mod 100000"
  have d: "diff = 1000 * u" using assms u_def by auto
  have rd: "round_diff diff = diff + 1000 * (k * 100000 - m)"
    unfolding round_diff_def Let_def microseconds_def k_def m_def u_def by simp
  have um: "u = 1000000 * (u div 1000000) + m" unfolding m_def by simp
  have mm: "m = 100000 * q + r" unfolding q_def r_def by simp
  have kc: "k = q \<and> 2 * r \<le> 100000 \<or> k = q + 1 \<and> 100000 \<le> 2 * r"
    unfolding k_def q_def r_def using py_round_div_cases [of 100000 m] by simp
  have r0: "0 \<le> r" "r < 100000" unfolding r_def by simp_all
  have e: "round_diff diff = 100000000 * (10 * (u div 1000000) + k)"
    using rd d um by (simp add: algebra_simps)
  have off: "\<bar>k * 100000 - m\<bar> \<le> 50000"
    using kc mm r0 by auto
  have "round_diff diff - diff = 1000 * (k * 100000 - m)" using rd by linarith
  then have "\<bar>round_diff diff - diff\<bar> = 1000 * \<bar>k * 100000 - m\<bar>"
    by (simp only: abs_mult abs_numeral)
  also have "\<dots> \<le> 1000 * 50000" using off by (intro mult_left_mono) simp_all
  finally have "\<bar>round_diff diff - diff\<bar> \<le> 50000000" by simp
  moreover have "round_diff diff mod 100000000 = 0" by (simp only: e mod_mult_self1_is_0)
  ultimately show ?thesis by blast
qed

text \<open>The nanoseconds below the microsecond pass through the rounding unchanged.\<close>

lemma round_diff_nanoseconds: "round_diff diff mod 1000 = diff mod 1000"
proof -
  have "(diff + 1000 * x) mod 1000 = diff mod 1000" for x :: int
    by simp
  then show ?thesis unfolding round_diff_def Let_def .
qed

text \<open>One calibration pair with the camera 0.137 s ahead: the offset is 0.1 s.\<close>

lemma get_time_diff_137_milliseconds:
  "get_time_diff [(''a.NEF'', 10137000000)] [(''a.NEF'', 10000000000)] = Inr 100000000"
  by code_simp

text \<open>
  \<^bold>\<open>C1.\<close> The estimated clock offset is to be the arithmetic mean of the differences
  camera time minus reference time, rounded to the nearest multiple of 0.1 s. The
  rounding of lines 90 and 91 moves the microsecond component only. Three calibration
  pairs with the differences 0.1 s, 0.1 s and 0.2 s have the mean 0.133333333 s, whose
  microsecond component 133333 is taken to 100000 while the 333 nanoseconds stay: the
  offset returned is 0.100000333 s, which is no multiple of 0.1 s.
\<close>

theorem get_time_diff_keeps_nanoseconds:
  "get_time_diff
     [(''a.NEF'', 10100000000), (''b.NEF'', 20100000000), (''c.NEF'', 30200000000)]
     [(''a.NEF'', 10000000000), (''b.NEF'', 20000000000), (''c.NEF'', 30000000000)]
   = Inr 100000333"
  by code_simp

lemma in_set_update:
  "x \<in> set (AList.update k v al) \<Longrightarrow> x = (k, v) \<or> x \<in> set al"
  by (induction al) (auto split: if_splits)

lemma rows_from_set_gps:
  assumes "rows_from A B frame" "fst line \<in> B"
  shows "rows_from A B (set_gps line frame)"
proof -
  obtain cam t where l: "line = (cam, t)" by (cases line)
  show ?thesis
    unfolding rows_from_def
  proof (intro allI impI)
    fix f c g
    assume "(f, c, g) \<in> set (set_gps line frame)"
    then have "(f, c, g) = (cam, (case map_of frame cam of Some (c, g) \<Rightarrow> c | None \<Rightarrow> None), Some t)
               \<or> (f, c, g) \<in> set frame"
      unfolding set_gps_def l by (auto dest: in_set_update)
    then show "(c \<noteq> None \<longrightarrow> f \<in> A) \<and> (g \<noteq> None \<longrightarrow> f \<in> B)"
    proof
      assume old: "(f, c, g) \<in> set frame"
      then show ?thesis using assms(1) unfolding rows_from_def by blast
    next
      assume new: "(f, c, g) = (cam, (case map_of frame cam of Some (c, g) \<Rightarrow> c | None \<Rightarrow> None), Some t)"
      then have fB: "f \<in> B" using assms(2) l by simp
      have "c \<noteq> None \<Longrightarrow> f \<in> A"
      proof -
        assume cn: "c \<noteq> None"
        with new obtain g' where "map_of frame cam = Some (c, g')"
          by (auto split: option.splits)
        then have "(cam, c, g') \<in> set frame" by (rule map_of_SomeD)
        then show "f \<in> A" using assms(1) cn new unfolding rows_from_def by blast
      qed
      then show ?thesis using fB by blast
    qed
  qed
qed

lemma rows_from_fold:
  "rows_from A B frame \<Longrightarrow> fst ` set gps \<subseteq> B \<Longrightarrow> rows_from A B (fold set_gps gps frame)"
  by (induction gps arbitrary: frame) (auto intro: rows_from_set_gps)

lemma rows_from_build_times:
  "rows_from (fst ` set cam_times) (fst ` set gps) (build_times cam_times gps)"
  unfolding build_times_def
  by (rule rows_from_fold) (force simp: rows_from_def)+

lemma fst_add_cam_time:
  "fst ` set (add_cam_time e acc) \<subseteq> fst ` set acc \<union> {f. f = fst e \<and> check_if_valid_filename f}"
proof (cases e)
  case (Pair name date)
  have "fst ` set (AList.update name date acc) \<subseteq> insert name (fst ` set acc)"
    by (auto dest: in_set_update)
  then show ?thesis
    unfolding add_cam_time_def Pair by auto
qed

lemma fst_get_cam_times_fold:
  "fst ` set (fold add_cam_time dir acc)
   \<subseteq> fst ` set acc \<union> {f \<in> fst ` set dir. check_if_valid_filename f}"
proof (induction dir arbitrary: acc)
  case Nil
  then show ?case by simp
next
  case (Cons e dir)
  have "fst ` set (fold add_cam_time (e # dir) acc)
        \<subseteq> fst ` set (add_cam_time e acc) \<union> {f \<in> fst ` set dir. check_if_valid_filename f}"
    using Cons.IH [of "add_cam_time e acc"] by simp
  also have "\<dots> \<subseteq> (fst ` set acc \<union> {f. f = fst e \<and> check_if_valid_filename f})
                  \<union> {f \<in> fst ` set dir. check_if_valid_filename f}"
    using fst_add_cam_time [of e acc] by blast
  also have "\<dots> \<subseteq> fst ` set acc \<union> {f \<in> fst ` set (e # dir). check_if_valid_filename f}"
    by auto
  finally show ?case .
qed

lemma fst_get_cam_times:
  "fst ` set (get_cam_times dir) \<subseteq> {f \<in> fst ` set dir. check_if_valid_filename f}"
  using fst_get_cam_times_fold [of dir "[]"] unfolding get_cam_times_def by simp

lemma mean_all_None:
  assumes "list_all (\<lambda>d. d = None) col"
  shows "mean col = None"
proof -
  from assms have "List.map_filter (\<lambda>d. d) col = []"
    by (induction col) (auto simp: List.map_filter_simps)
  then show ?thesis by (simp add: mean_def)
qed

text \<open>
  \<^bold>\<open>C7, as the code has it.\<close> When there is no calibration pair, that is when no valid
  image file of the synchronisation directory is named by a line of the GPS time file,
  \<^verbatim>\<open>get_time_diff\<close> returns no value: the mean is NaT and rounding its microseconds
  raises \<^verbatim>\<open>ValueError\<close>.
\<close>

theorem get_time_diff_no_pairs:
  assumes "\<forall>f \<in> fst ` set photo_sync_directory.
             check_if_valid_filename f \<longrightarrow> f \<notin> fst ` set gps_time_file"
  shows "get_time_diff photo_sync_directory gps_time_file = Inl ValueError"
proof -
  let ?cam = "get_cam_times photo_sync_directory"
  have rf: "rows_from (fst ` set ?cam) (fst ` set gps_time_file) (build_times ?cam gps_time_file)"
    by (rule rows_from_build_times)
  have one: "c = None \<or> g = None" if "(f, c, g) \<in> set (build_times ?cam gps_time_file)" for f c g
  proof (rule ccontr)
    assume "\<not> (c = None \<or> g = None)"
    with rf that have "f \<in> fst ` set ?cam" "f \<in> fst ` set gps_time_file"
      unfolding rows_from_def by blast+
    with fst_get_cam_times [of photo_sync_directory] assms show False by blast
  qed
  have "list_all (\<lambda>d. d = None) (diff_column (build_times ?cam gps_time_file))"
    unfolding diff_column_def list_all_iff using one by (fastforce split: option.splits)
  then show ?thesis unfolding get_time_diff_def by (simp add: mean_all_None)
qed

theorem get_time_diff_no_pairs_witness:
  "get_time_diff [(''a.NEF'', 10137000000)] [(''b.NEF'', 10000000000)] = Inl ValueError"
  using get_time_diff_no_pairs [of "[(''a.NEF'', 10137000000)]" "[(''b.NEF'', 10000000000)]"]
  by simp

text \<open>The claim names the error \<^verbatim>\<open>InsufficientCalibrationData\<close>; with an empty
  synchronisation directory and an empty GPS time file the exception raised is
  \<^verbatim>\<open>ValueError\<close>.\<close>

theorem get_time_diff_empty_not_InsufficientCalibrationData:
  "get_time_diff [] [] = Inl ValueError
   \<and> get_time_diff [] [] \<noteq> Inl (Exn ''InsufficientCalibrationData'')"
  by code_simp

subsection \<open>The track reader\<close>

lemma find_app:
  "List.find P (xs @ ys) = (case List.find P xs of None \<Rightarrow> List.find P ys | Some x \<Rightarrow> Some x)"
  by (induction xs) simp_all

lemma map_of_fold_set_point:
  "map_of (fold set_point pts acc) t =
     (case List.find (\<lambda>p. time p = t) (rev pts) of
        Some p \<Rightarrow> Some (position_of p)
      | None \<Rightarrow> map_of acc t)"
proof (induction pts arbitrary: acc)
  case Nil
  then show ?case by simp
next
  case (Cons p pts)
  have m: "map_of (set_point p acc) = (map_of acc)(time p \<mapsto> position_of p)"
    by (simp add: set_point_def update_conv')
  show ?case
    by (simp add: Cons.IH find_app m split: option.splits)
qed

text \<open>
  \<^bold>\<open>C9, as the code has it.\<close> \<^verbatim>\<open>coords.loc[time] = ...\<close> overwrites the row of a time
  that is already in the index. For every GPX file and every time, the row the reader
  stores at that time holds the values of the last point read with that time: of two
  or more points with one timestamp the later one wins, the earlier ones are
  discarded.
\<close>

theorem read_gpx_keeps_last:
  "map_of (read_gpx gpx) t =
     map_option position_of (List.find (\<lambda>p. time p = t) (rev (concat (concat gpx))))"
  unfolding read_gpx_def read_points_def
  by (simp add: map_of_fold_set_point split: option.splits)

text \<open>Two points with the timestamp 0: the frame has one row, with the values of the
  second point, where the claim keeps the first.\<close>

theorem read_gpx_duplicate_keeps_second:
  "read_gpx [[[\<lparr>time = 0, longitude = 10, latitude = 20, elevation = Some 30\<rparr>,
               \<lparr>time = 0, longitude = 11, latitude = 21, elevation = Some 31\<rparr>]]]
   = [(0, Some 11, Some 21, Some 31)]"
  by (simp add: read_gpx_def read_points_def set_point_def position_of_def)

subsection \<open>Degenerate tracks\<close>

lemma update_twice: "AList.update k v (AList.update k w al) = AList.update k v al"
  by (induction al) auto

lemma read_points_merge:
  assumes "time p = time q"
  shows "read_points (xs @ p # q # ys) = read_points (xs @ q # ys)"
  unfolding read_points_def using assms by (simp add: set_point_def update_twice)

lemma interpolate_1d_single: "interpolate_1d [y] = [y]"
  by (cases y) (simp_all add: interpolate_1d_def interp_at_def valid_before_def)

lemma floor_freq_id: "floor_freq t = t \<longleftrightarrow> t mod freq = 0"
  unfolding floor_freq_def by auto

lemma resample_single:
  "resample_interpolate [(t, r)] = [(floor_freq t, if t mod freq = 0 then r else nan_position)]"
proof -
  have u: "upsample [(t, r)] = [(floor_freq t, if t mod freq = 0 then r else nan_position)]"
    unfolding upsample_def Let_def equal_sampling_def res_index_def reindex_def
    by (simp add: floor_freq_id)
  obtain a b c where abc: "(if t mod freq = 0 then r else nan_position) = (a, b, c)"
    by (metis prod_cases3)
  show ?thesis
    unfolding resample_interpolate_def sort_index_def
    by (simp add: u abc interpolate_def interpolate_1d_single)
qed

text \<open>
  \<^bold>\<open>C8, as the code has it.\<close> Neither the reader nor the resampling checks the track.
  A track of a single sample is resampled to a dense track of a single row, at the
  sample's time rounded down to a multiple of 100 ms and with the sample's values when
  the time is such a multiple (NaN otherwise). Two consecutive points with equal
  timestamps are read as the second of them alone. No \<^verbatim>\<open>DegenerateTrack\<close> error exists,
  and the run goes on to the matching and the writing.
\<close>

theorem single_sample_resampled:
  "resample_interpolate (read_gpx [[[p]]])
     = [(floor_freq (time p), if time p mod freq = 0 then position_of p else nan_position)]
   \<and> (time p = time q \<longrightarrow> read_points (xs @ p # q # ys) = read_points (xs @ q # ys))"
proof -
  have "read_gpx [[[p]]] = [(time p, position_of p)]"
    by (simp add: read_gpx_def read_points_def set_point_def)
  then show ?thesis using resample_single read_points_merge by simp
qed

theorem single_sample_resampled_witness:
  "resample_interpolate
     (read_gpx [[[\<lparr>time = 0, longitude = 7, latitude = 14, elevation = Some 21\<rparr>]]])
     = [(0, Some 7, Some 14, Some 21)]
   \<and> read_points
       ([] @ \<lparr>time = 0, longitude = 7, latitude = 14, elevation = Some 21\<rparr>
           # \<lparr>time = 0, longitude = 8, latitude = 15, elevation = None\<rparr> # [])
     = read_points ([] @ \<lparr>time = 0, longitude = 8, latitude = 15, elevation = None\<rparr> # [])"
  using single_sample_resampled
    [of "\<lparr>time = 0, longitude = 7, latitude = 14, elevation = Some 21\<rparr>"
        "\<lparr>time = 0, longitude = 8, latitude = 15, elevation = None\<rparr>" "[]" "[]"]
  by (simp add: floor_freq_def freq_def position_of_def)

text \<open>A run over a track of one sample, with one calibration pair 5 s apart and one
  photograph taken at the sample's time: nothing is raised, the table has a row and the
  photograph is written to.\<close>

theorem single_sample_run_writes:
  "main [(''s.NEF'', 5000000000)] [(''s.NEF'', 0)] [(''a.tif'', 5000000000)]
        [[[\<lparr>time = 0, longitude = 7, latitude = 14, elevation = Some 21\<rparr>]]]
   = \<lparr>csv = Some [(0, \<lparr>lon = 7, lat = 14, elev = 21, photo = ''a.tif''\<rparr>)],
      writes = [(''a.tif'', 7, 14, 21)],
      raised = None\<rparr>"
  by code_simp

subsection \<open>Writing the location tags\<close>

text \<open>
  \<^bold>\<open>C5.\<close> No location tag is to be written to a photograph whose corrected time is
  outside the track. \<^verbatim>\<open>georeference\<close> calls exiftool for every image file of the
  destination folder, after the matching loop, whether the loop found a row or not. Here
  the clock offset is 5 s and the track runs from 0 s to 0.2 s; \<^verbatim>\<open>a.tif\<close> (corrected
  time 0.1 s) is matched, \<^verbatim>\<open>b.tif\<close> (corrected time 4 s) is not and is absent from the
  table, and exiftool writes the coordinate of \<^verbatim>\<open>a.tif\<close> to both.
\<close>

theorem unmatched_photo_is_written:
  "main [(''s.NEF'', 5000000000)] [(''s.NEF'', 0)]
        [(''a.tif'', 5100000000), (''b.tif'', 9000000000)]
        [[[\<lparr>time = 0, longitude = 0, latitude = 0, elevation = Some 0\<rparr>,
           \<lparr>time = 200000000, longitude = 20, latitude = 40, elevation = Some 60\<rparr>]]]
   = \<lparr>csv = Some [(100000000, \<lparr>lon = 10, lat = 20, elev = 30, photo = ''a.tif''\<rparr>)],
      writes = [(''a.tif'', 10, 20, 30), (''b.tif'', 10, 20, 30)],
      raised = None\<rparr>"
  by code_simp

lemma iterrows_loop_no_match:
  assumes "\<forall>row \<in> set rows. \<not> contains (photo (snd row)) stem"
  shows "iterrows_loop stem rows c = (if rows = [] then c else Some (snd (last rows)), None)"
  using assms
proof (induction rows arbitrary: c)
  case Nil
  then show ?case by simp
next
  case (Cons row rows)
  obtain i r where row: "row = (i, r)" by (cases row)
  from Cons.prems row have nm: "\<not> contains (photo r) stem" by simp
  from Cons.prems have rest: "\<forall>row \<in> set rows. \<not> contains (photo (snd row)) stem" by simp
  show ?case
    using Cons.IH [OF rest, of "Some r"] nm row by simp
qed

text \<open>What the loop does with a valid image file whose name without the suffix is
  contained in the \<^verbatim>\<open>photo\<close> of no remaining row. The write is not skipped. The inner
  loop rebinds \<^verbatim>\<open>coord\<close> in every round, so what is written is the coordinate of the
  last remaining row; only when no row remains is it the coordinate \<^verbatim>\<open>coord\<close> kept
  from the file before, and only when in addition \<^verbatim>\<open>coord\<close> was never bound does the
  function fail, with \<^verbatim>\<open>UnboundLocalError\<close>. No row is dropped.\<close>

lemma georeference_unmatched_file:
  assumes "check_if_valid_filename name"
    and "\<forall>row \<in> set cam_coords. \<not> contains (photo (snd row)) (file_stem name)"
  shows "georeference_loop cam_coords c (name # files) written =
     (case (if cam_coords = [] then c else Some (snd (last cam_coords))) of
        None \<Rightarrow> (written, Some UnboundLocalError)
      | Some r \<Rightarrow>
          georeference_loop cam_coords (Some r) files
            (written @ [(name, lon r, lat r, elev r)]))"
  using assms(1) iterrows_loop_no_match [OF assms(2), of c]
  by (simp add: drop_label_def split: option.splits)

lemma georeference_unmatched_file_example:
  "check_if_valid_filename ''b.tif''
   \<and> georeference_loop
       [(100000000, \<lparr>lon = 10, lat = 20, elev = 30, photo = ''a.tif''\<rparr>)] None [''b.tif''] []
     = ([(''b.tif'', 10, 20, 30)], None)"
proof -
  have v: "check_if_valid_filename ''b.tif''"
    by code_simp
  have n: "\<forall>row \<in> set [(100000000 :: timestamp, \<lparr>lon = 10, lat = 20, elev = 30, photo = ''a.tif''\<rparr>)].
             \<not> contains (photo (snd row)) (file_stem ''b.tif'')"
    by code_simp
  show ?thesis
    using v georeference_unmatched_file [OF v n, of None "[]" "[]"] by simp
qed

text \<open>
  \<^bold>\<open>C10.\<close> A valid image file that matches no row of the remaining table is still
  written to, with the coordinate retained from the most recent matched file; and when
  the first valid file processed matches no row, no coordinate was ever bound and the
  function is to fail. The comment on line 135 has the write use the row the loop
  broke on; the case of a loop that ends without a match is missed. Here the first
  valid file of the folder, \<^verbatim>\<open>b.tif\<close> (corrected time 4 s, the track ends at 0.2 s),
  matches no row and no file was matched before it. The loop has bound \<^verbatim>\<open>coord\<close> to
  the last row of the table on its way, so nothing is raised and exiftool writes the
  coordinate of that row, which belongs to \<^verbatim>\<open>a.tif\<close>, to \<^verbatim>\<open>b.tif\<close>. The defect is the
  one of C5 and C6.
\<close>

theorem first_file_unmatched_no_error:
  "main [(''s.NEF'', 5000000000)] [(''s.NEF'', 0)]
        [(''b.tif'', 9000000000), (''a.tif'', 5100000000)]
        [[[\<lparr>time = 0, longitude = 0, latitude = 0, elevation = Some 0\<rparr>,
           \<lparr>time = 200000000, longitude = 20, latitude = 40, elevation = Some 60\<rparr>]]]
   = \<lparr>csv = Some [(100000000, \<lparr>lon = 10, lat = 20, elev = 30, photo = ''a.tif''\<rparr>)],
      writes = [(''b.tif'', 10, 20, 30), (''a.tif'', 10, 20, 30)],
      raised = None\<rparr>"
  by code_simp

subsection \<open>The resampling grid\<close>

lemma freq_pos: "0 < freq"
  by (simp add: freq_def)

lemma floor_freq_le: "floor_freq t \<le> t"
  unfolding floor_freq_def using freq_pos by simp

lemma floor_freq_gt: "t < floor_freq t + freq"
  unfolding floor_freq_def using freq_pos pos_mod_bound [of freq t] by linarith

lemma floor_freq_mod: "floor_freq t mod freq = 0"
  unfolding floor_freq_def by (simp add: mod_diff_right_eq)

lemma floor_freq_mono: "s \<le> t \<Longrightarrow> floor_freq s \<le> floor_freq t"
proof -
  assume "s \<le> t"
  have "floor_freq t = freq * (t div freq)" for t
    unfolding floor_freq_def by (simp add: minus_mod_eq_mult_div)
  moreover have "s div freq \<le> t div freq"
    using \<open>s \<le> t\<close> freq_pos by (simp add: zdiv_mono1)
  ultimately show ?thesis using freq_pos by simp
qed

lemma floor_freq_add: "floor_freq (t + int k * freq) = floor_freq t + int k * freq"
  unfolding floor_freq_def by simp

text \<open>The number of bins after the first.\<close>

lemma res_index_nth:
  assumes "k < length (res_index ax)"
  shows "res_index ax ! k = floor_freq (hd ax) + int k * freq"
proof -
  from assms have ne: "ax \<noteq> []" by (auto simp: res_index_def)
  with assms show ?thesis
    unfolding res_index_def by (simp del: upt_Suc)
qed

lemma res_index_length:
  "ax \<noteq> [] \<Longrightarrow>
   length (res_index ax) = Suc (nat ((floor_freq (last ax) - floor_freq (hd ax)) div freq))"
  unfolding res_index_def by simp

lemma res_index_last:
  assumes "ax \<noteq> []" "hd ax \<le> last ax"
  shows "last (res_index ax) = floor_freq (last ax)"
proof -
  let ?d = "floor_freq (last ax) - floor_freq (hd ax)"
  let ?n = "nat (?d div freq)"
  have d0: "0 \<le> ?d" using floor_freq_mono [OF assms(2)] by simp
  have "freq dvd floor_freq (last ax)" "freq dvd floor_freq (hd ax)"
    using floor_freq_mod by (simp_all add: mod_eq_0_iff_dvd)
  then have "freq dvd ?d" by (rule dvd_diff)
  then have dm: "?d mod freq = 0" by (simp add: mod_eq_0_iff_dvd)
  have q0: "0 \<le> ?d div freq" using d0 freq_pos by (simp add: pos_imp_zdiv_nonneg_iff)
  have "?d = (?d div freq) * freq" using dm by (simp add: mod_eq_0_iff_dvd)
  then have e: "?d = int ?n * freq" using q0 by simp
  have len: "length (res_index ax) = Suc ?n" by (rule res_index_length [OF assms(1)])
  then have ne: "res_index ax \<noteq> []" by auto
  have "last (res_index ax) = res_index ax ! ?n"
    using last_conv_nth [OF ne] len by simp
  also have "\<dots> = floor_freq (hd ax) + int ?n * freq"
    by (rule res_index_nth) (simp add: len)
  also have "\<dots> = floor_freq (last ax)" using e by simp
  finally show ?thesis .
qed

lemma res_index_hd:
  assumes "ax \<noteq> []"
  shows "hd (res_index ax) = floor_freq (hd ax)"
proof -
  have len: "0 < length (res_index ax)" using res_index_length [OF assms] by simp
  then have "hd (res_index ax) = res_index ax ! 0" by (simp add: hd_conv_nth)
  then show ?thesis using res_index_nth [OF len] by simp
qed

lemma res_index_step:
  assumes "Suc k < length (res_index ax)"
  shows "res_index ax ! Suc k = res_index ax ! k + freq"
proof -
  from assms have "k < length (res_index ax)" by simp
  then show ?thesis
    using res_index_nth [OF assms] res_index_nth [of k ax] by (simp add: algebra_simps)
qed

lemma length_interpolate_1d: "length (interpolate_1d ys) = length ys"
  by (simp add: interpolate_1d_def)

lemma index_interpolate: "map fst (interpolate df) = map fst df"
  unfolding interpolate_def by (simp add: length_interpolate_1d)

text \<open>An index of the frequency is an arithmetic progression.\<close>

lemma deltas_nth:
  assumes "list_all (\<lambda>(a, b). b - a = d) (zip ax (tl ax))" "i < length ax"
  shows "ax ! i = hd ax + int i * d"
  using assms
proof (induction i)
  case 0
  then show ?case by (cases ax) simp_all
next
  case (Suc i)
  then have i: "i < length ax" by simp
  have "(ax ! i, ax ! Suc i) \<in> set (zip ax (tl ax))"
  proof -
    have "i < length (zip ax (tl ax))" using Suc.prems(2) by simp
    then have "zip ax (tl ax) ! i \<in> set (zip ax (tl ax))" by (rule nth_mem)
    moreover have "zip ax (tl ax) ! i = (ax ! i, ax ! Suc i)"
      using Suc.prems(2) by (simp add: nth_tl)
    ultimately show ?thesis by simp
  qed
  with Suc.prems(1) have "ax ! Suc i - ax ! i = d"
    by (auto simp: list_all_iff)
  with Suc.IH [OF Suc.prems(1) i] show ?case by (simp add: algebra_simps)
qed

lemma equal_sampling_length:
  assumes "equal_sampling ax"
  shows "length (res_index ax) = length ax"
proof -
  from assms have n3: "3 \<le> length ax"
    and dl: "list_all (\<lambda>(a, b). b - a = freq) (zip ax (tl ax))"
    by (simp_all add: equal_sampling_def)
  then have ne: "ax \<noteq> []" by auto
  let ?n = "length ax - 1"
  have "last ax = ax ! ?n" using ne by (simp add: last_conv_nth)
  also have "\<dots> = hd ax + int ?n * freq" using deltas_nth [OF dl, of ?n] ne by simp
  finally have l: "last ax = hd ax + int ?n * freq" .
  have "floor_freq (last ax) - floor_freq (hd ax) = int ?n * freq"
    unfolding l floor_freq_add by simp
  then have "(floor_freq (last ax) - floor_freq (hd ax)) div freq = int ?n"
    using freq_pos by simp
  then show ?thesis using res_index_length [OF ne] ne by simp
qed

lemma index_upsample: "map fst (upsample obj) = res_index (map fst obj)"
proof (cases "equal_sampling (map fst obj)")
  case True
  then have "length (res_index (map fst obj)) = length (map snd obj)"
    using equal_sampling_length by fastforce
  then show ?thesis using True unfolding upsample_def Let_def by simp
next
  case False
  then show ?thesis unfolding upsample_def Let_def reindex_def by (simp add: comp_def)
qed

lemma index_resample_interpolate:
  "map fst (resample_interpolate coords) = res_index (map fst (sort_index coords))"
  unfolding resample_interpolate_def by (simp add: index_interpolate index_upsample)

text \<open>Points read in strictly increasing time order fill the frame in that order.\<close>

lemma fold_set_point_fresh:
  assumes "distinct (map time pts)" "time ` set pts \<inter> fst ` set acc = {}"
  shows "fold set_point pts acc = acc @ map (\<lambda>p. (time p, position_of p)) pts"
  using assms
proof (induction pts arbitrary: acc)
  case Nil
  then show ?case by simp
next
  case (Cons p pts)
  from Cons.prems(2) have "time p \<notin> fst ` set acc" by auto
  then have s: "set_point p acc = acc @ [(time p, position_of p)]"
    unfolding set_point_def by (induction acc) auto
  have "time ` set pts \<inter> fst ` set (set_point p acc) = {}"
    using Cons.prems unfolding s by auto
  moreover have "distinct (map time pts)" using Cons.prems(1) by simp
  ultimately show ?case using Cons.IH [of "set_point p acc"] s by simp
qed

lemma strict_sorted_distinct:
  fixes xs :: "int list"
  shows "sorted_wrt (<) xs \<Longrightarrow> distinct xs \<and> sorted xs"
  by (induction xs) (auto simp: less_imp_le)

lemma read_points_sorted:
  assumes "sorted_wrt (<) (map time pts)"
  shows "read_points pts = map (\<lambda>p. (time p, position_of p)) pts"
  unfolding read_points_def
  using fold_set_point_fresh [of pts "[]"] strict_sorted_distinct [OF assms] by simp

lemma sort_index_sorted:
  assumes "sorted_wrt (<) (map time pts)"
  shows "sort_index (read_points pts) = map (\<lambda>p. (time p, position_of p)) pts"
proof -
  have "sorted (map fst (map (\<lambda>p. (time p, position_of p)) pts))"
    using strict_sorted_distinct [OF assms] by (simp add: comp_def)
  then show ?thesis
    unfolding sort_index_def read_points_sorted [OF assms] by (rule sort_key_id_if_sorted)
qed

lemma grid_sorted_track:
  assumes "sorted_wrt (<) (map time pts)"
  shows "map fst (resample_interpolate (read_points pts)) = res_index (map time pts)"
  unfolding index_resample_interpolate sort_index_sorted [OF assms] by (simp add: comp_def)

text \<open>
  \<^bold>\<open>C2, as the code has it.\<close> For a track of at least two samples with strictly
  increasing timestamps, the timestamps of the dense track start at the first sample's
  timestamp rounded down to a multiple of 100 ms, each is exactly 100 ms after the one
  before, and they end at the last sample's timestamp rounded down to a multiple of
  100 ms. So no grid timestamp is after the last sample, and the first one is less than
  100 ms before the first sample: it is before it unless the first sample's timestamp
  is itself a multiple of 100 ms.
\<close>

theorem dense_track_grid:
  assumes "concat (concat gpx) = pts"
    and "2 \<le> length pts"
    and "sorted_wrt (<) (map time pts)"
  shows "grid (resample_interpolate (read_gpx gpx)) \<noteq> []
    \<and> hd (grid (resample_interpolate (read_gpx gpx))) = floor_freq (time (hd pts))
    \<and> last (grid (resample_interpolate (read_gpx gpx))) = floor_freq (time (last pts))
    \<and> (\<forall>k. Suc k < length (grid (resample_interpolate (read_gpx gpx))) \<longrightarrow>
          grid (resample_interpolate (read_gpx gpx)) ! Suc k
            = grid (resample_interpolate (read_gpx gpx)) ! k + freq)
    \<and> hd (grid (resample_interpolate (read_gpx gpx))) \<le> time (hd pts)
    \<and> time (hd pts) < hd (grid (resample_interpolate (read_gpx gpx))) + freq
    \<and> last (grid (resample_interpolate (read_gpx gpx))) \<le> time (last pts)"
proof -
  let ?ax = "map time pts"
  from assms(2) have ne: "pts \<noteq> []" by auto
  then have axne: "?ax \<noteq> []" by simp
  have g: "grid (resample_interpolate (read_gpx gpx)) = res_index ?ax"
    unfolding grid_def read_gpx_def assms(1) by (rule grid_sorted_track [OF assms(3)])
  have h: "hd ?ax = time (hd pts)" using ne by (simp add: hd_map)
  have l: "last ?ax = time (last pts)" using ne by (simp add: last_map)
  have "sorted ?ax" using strict_sorted_distinct [OF assms(3)] by simp
  then have "?ax ! 0 \<le> ?ax ! (length ?ax - 1)"
    using axne by (intro sorted_nth_mono) simp_all
  then have hl: "hd ?ax \<le> last ?ax"
    using axne by (simp add: hd_conv_nth last_conv_nth)
  have 1: "res_index ?ax \<noteq> []" using res_index_length [OF axne] by auto
  have 2: "hd (res_index ?ax) = floor_freq (time (hd pts))"
    using res_index_hd [OF axne] h by simp
  have 3: "last (res_index ?ax) = floor_freq (time (last pts))"
    using res_index_last [OF axne hl] l by simp
  have 4: "\<forall>k. Suc k < length (res_index ?ax) \<longrightarrow> res_index ?ax ! Suc k = res_index ?ax ! k + freq"
    using res_index_step by blast
  show ?thesis
    unfolding g using 1 2 3 4 floor_freq_le floor_freq_gt by simp
qed

theorem dense_track_grid_witness:
  "hd (grid (resample_interpolate (read_gpx
      [[[\<lparr>time = 50000000, longitude = 10, latitude = 20, elevation = None\<rparr>,
         \<lparr>time = 250000000, longitude = 30, latitude = 40, elevation = None\<rparr>]]]))) = 0
   \<and> last (grid (resample_interpolate (read_gpx
      [[[\<lparr>time = 50000000, longitude = 10, latitude = 20, elevation = None\<rparr>,
         \<lparr>time = 250000000, longitude = 30, latitude = 40, elevation = None\<rparr>]]]))) = 200000000"
proof -
  let ?p = "\<lparr>time = 50000000, longitude = 10, latitude = 20, elevation = None\<rparr>"
  let ?q = "\<lparr>time = 250000000, longitude = 30, latitude = 40, elevation = None\<rparr>"
  have 1: "concat (concat [[[?p, ?q]]]) = [?p, ?q]" by simp
  have 2: "2 \<le> length [?p, ?q]" by simp
  have 3: "sorted_wrt (<) (map time [?p, ?q])" by simp
  show ?thesis
    using dense_track_grid [OF 1 2 3] by (simp add: floor_freq_def freq_def)
qed

text \<open>Samples at 0.05 s and 0.25 s: the grid is 0 s, 0.1 s, 0.2 s. It starts before
  the first sample, where the claim has it start exactly there, and it ends before the
  last one.\<close>

theorem grid_starts_before_first_sample:
  "grid (resample_interpolate (read_gpx
      [[[\<lparr>time = 50000000, longitude = 10, latitude = 20, elevation = None\<rparr>,
         \<lparr>time = 250000000, longitude = 30, latitude = 40, elevation = None\<rparr>]]]))
   = [0, 100000000, 200000000]"
  by code_simp

subsection \<open>Matching photographs\<close>

lemma res_index_bounds:
  assumes "x \<in> set (res_index ax)"
  shows "hd (res_index ax) \<le> x \<and> x \<le> last (res_index ax)"
proof -
  from assms obtain k where k: "k < length (res_index ax)" "x = res_index ax ! k"
    by (auto simp: in_set_conv_nth)
  from k(1) have ne: "res_index ax \<noteq> []" by (cases "res_index ax") simp_all
  let ?n = "length (res_index ax) - 1"
  have n: "?n < length (res_index ax)" using k(1) by simp
  have z: "0 < length (res_index ax)" using k(1) by linarith
  have h: "hd (res_index ax) = floor_freq (hd ax)"
    using res_index_nth [OF z] ne by (simp add: hd_conv_nth)
  have l: "last (res_index ax) = floor_freq (hd ax) + int ?n * freq"
    using res_index_nth [OF n] ne by (simp add: last_conv_nth)
  have x: "x = floor_freq (hd ax) + int k * freq"
    using res_index_nth [OF k(1)] k(2) by simp
  have "int k \<le> int ?n" using k(1) by simp
  then have "int k * freq \<le> int ?n * freq" using freq_pos by (simp add: mult_right_mono)
  moreover have "0 \<le> int k * freq" using freq_pos by simp
  ultimately show ?thesis unfolding h l x by simp
qed

lemma grid_bounds:
  assumes "x \<in> set (grid (resample_interpolate coords))"
  shows "hd (grid (resample_interpolate coords)) \<le> x
       \<and> x \<le> last (grid (resample_interpolate coords))"
  using assms unfolding grid_def index_resample_interpolate by (rule res_index_bounds)

lemma complete_row_Some:
  assumes "complete_row row = Some (t, c)"
  shows "\<exists>r. row = (t, r, Some (photo c)) \<and> r \<noteq> nan_position"
proof -
  obtain t' r p where "row = (t', r, p)" by (cases row) auto
  moreover obtain a b e where "r = (a, b, e)" by (cases r) auto
  ultimately have row: "row = (t', (a, b, e), p)" by simp
  with assms show ?thesis
    by (auto simp: complete_row_def nan_position_def split: option.splits)
qed

lemma in_set_map_filter:
  "y \<in> set (List.map_filter f xs) \<Longrightarrow> \<exists>x \<in> set xs. f x = Some y"
  by (induction xs) (auto split: option.splits)

lemma table_row_origin:
  assumes "assign_photo coords series = Inr pf" "(t, c) \<in> set (dropna pf)"
  shows "t \<in> set (grid coords) \<and> (t, photo c) \<in> set series"
proof -
  from assms(2) obtain row where row: "row \<in> set pf" "complete_row row = Some (t, c)"
    unfolding dropna_def by (auto dest: in_set_map_filter)
  from complete_row_Some [OF row(2)] obtain r
    where r: "row = (t, r, Some (photo c))" "r \<noteq> nan_position" by blast
  show ?thesis
  proof (cases "coords = []")
    case True
    with assms(1) have "pf = map (\<lambda>(t, name). (t, nan_position, Some name)) series"
      by (simp add: assign_photo_def)
    with row(1) r show ?thesis by auto
  next
    case False
    with assms(1) have "pf = map (\<lambda>(t, r). (t, r, map_of series t)) coords"
      by (simp add: assign_photo_def split: if_splits)
    with row(1) r(1) have "(t, r) \<in> set coords" "map_of series t = Some (photo c)"
      by auto
    then show ?thesis
      unfolding grid_def by (auto dest: map_of_SomeD intro: rev_image_eqI)
  qed
qed

lemma distinct_add_cam_time:
  "distinct (map fst acc) \<Longrightarrow> distinct (map fst (add_cam_time e acc))"
  by (cases e) (simp add: add_cam_time_def distinct_update)

lemma distinct_fold_add_cam_time:
  "distinct (map fst acc) \<Longrightarrow> distinct (map fst (fold add_cam_time dir acc))"
  by (induction dir arbitrary: acc) (simp_all add: distinct_add_cam_time)

lemma distinct_get_cam_times: "distinct (map fst (get_cam_times dir))"
  unfolding get_cam_times_def by (rule distinct_fold_add_cam_time) simp

text \<open>A photograph of the coordinate table has its corrected time among the timestamps
  of the dense track.\<close>

lemma table_photo_on_grid:
  assumes d: "get_time_diff sync gps = Inr d"
    and t: "map_of (get_cam_times dest) f = Some t"
    and tab: "csv (main sync gps dest gpx) = Some table"
    and f: "f \<in> photo ` snd ` set table"
  shows "t - d \<in> set (grid (resample_interpolate (read_gpx gpx)))"
proof -
  let ?series = "map (\<lambda>(name, t). (t - d, name)) (get_cam_times dest)"
  let ?dense = "resample_interpolate (read_gpx gpx)"
  from tab d obtain pf where pf: "assign_photo ?dense ?series = Inr pf" "table = dropna pf"
    unfolding main_def by (auto split: sum.splits)
  from f obtain t' c where c: "(t', c) \<in> set table" "photo c = f" by auto
  from table_row_origin [OF pf(1)] c(1) pf(2)
  have g: "t' \<in> set (grid ?dense)" and s: "(t', photo c) \<in> set ?series" by blast+
  from s obtain t0 where t0: "(f, t0) \<in> set (get_cam_times dest)" "t' = t0 - d"
    using c(2) by auto
  from t0(1) distinct_get_cam_times have "map_of (get_cam_times dest) f = Some t0"
    by (simp add: map_of_eq_Some_iff)
  with t have "t0 = t" by simp
  with g t0(2) show ?thesis by simp
qed

text \<open>A photograph whose corrected timestamp, the camera timestamp minus the clock
  offset, is before the first or after the last timestamp of the dense track has no row
  in the coordinate table the run writes.\<close>

lemma out_of_range_photo_not_in_table:
  assumes "get_time_diff photo_sync_directory gps_time_file = Inr time_diff"
    and "map_of (get_cam_times destination_folder) photo_name = Some raw"
    and "raw - time_diff < hd (grid (resample_interpolate (read_gpx gpx_file)))
       \<or> last (grid (resample_interpolate (read_gpx gpx_file))) < raw - time_diff"
    and "csv (main photo_sync_directory gps_time_file destination_folder gpx_file) = Some table"
  shows "photo_name \<notin> photo ` snd ` set table"
proof
  assume "photo_name \<in> photo ` snd ` set table"
  from table_photo_on_grid [OF assms(1) assms(2) assms(4) this]
  have "raw - time_diff \<in> set (grid (resample_interpolate (read_gpx gpx_file)))" .
  from grid_bounds [OF this] assms(3) show False by simp
qed

lemma out_of_range_photo_not_in_table_example:
  "csv (main [(''s.NEF'', 5000000000)] [(''s.NEF'', 0)]
          [(''a.tif'', 5100000000), (''b.tif'', 9000000000)]
          [[[\<lparr>time = 0, longitude = 0, latitude = 0, elevation = Some 0\<rparr>,
             \<lparr>time = 200000000, longitude = 20, latitude = 40, elevation = Some 60\<rparr>]]])
     = Some [(100000000, \<lparr>lon = 10, lat = 20, elev = 30, photo = ''a.tif''\<rparr>)]
   \<and> ''b.tif'' \<notin> photo ` snd ` set [(100000000 :: timestamp, \<lparr>lon = 10, lat = 20, elev = 30, photo = ''a.tif''\<rparr>)]"
proof -
  let ?gpx = "[[[\<lparr>time = 0, longitude = 0, latitude = 0, elevation = Some 0\<rparr>,
             \<lparr>time = 200000000, longitude = 20, latitude = 40, elevation = Some 60\<rparr>]]]"
  let ?dest = "[(''a.tif'', 5100000000), (''b.tif'', 9000000000)]"
  have 1: "get_time_diff [(''s.NEF'', 5000000000)] [(''s.NEF'', 0)] = Inr 5000000000"
    by code_simp
  have 2: "map_of (get_cam_times ?dest) ''b.tif'' = Some 9000000000"
    by code_simp
  have 3: "9000000000 - 5000000000 < hd (grid (resample_interpolate (read_gpx ?gpx)))
         \<or> last (grid (resample_interpolate (read_gpx ?gpx))) < 9000000000 - 5000000000"
    by code_simp
  have 4: "csv (main [(''s.NEF'', 5000000000)] [(''s.NEF'', 0)] ?dest ?gpx)
     = Some [(100000000, \<lparr>lon = 10, lat = 20, elev = 30, photo = ''a.tif''\<rparr>)]"
    by code_simp
  show ?thesis
    using out_of_range_photo_not_in_table [OF 1 2 3 4] 4 by blast
qed

text \<open>
  \<^bold>\<open>C6.\<close> A photograph whose corrected timestamp is strictly outside the time range of
  the dense track is never to receive a coordinate and is not to appear in the
  coordinate table. The table does leave it out, as the lemma above shows; the file
  receives a coordinate all the same. Here the clock offset is 5 s and the dense track
  runs from 10 s to 10.2 s. \<^verbatim>\<open>early.tif\<close> has the corrected time 7 s, before the track,
  and no row in the table; \<^verbatim>\<open>georeference\<close> finds no row for it and exiftool writes
  to it the coordinate of the last row left, which belongs to \<^verbatim>\<open>c.tif\<close>. The defect is
  the one of C5 and C10: the write on lines 138 and 139 is made whether the loop
  matched or not.
\<close>

theorem out_of_range_photo_receives_coordinate:
  "main [(''s.NEF'', 5000000000)] [(''s.NEF'', 0)]
        [(''a.tif'', 15100000000), (''early.tif'', 12000000000), (''c.tif'', 15200000000)]
        [[[\<lparr>time = 10000000000, longitude = 0, latitude = 0, elevation = Some 0\<rparr>,
           \<lparr>time = 10200000000, longitude = 20, latitude = 40, elevation = Some 60\<rparr>]]]
   = \<lparr>csv = Some [(10100000000, \<lparr>lon = 10, lat = 20, elev = 30, photo = ''a.tif''\<rparr>),
                  (10200000000, \<lparr>lon = 20, lat = 40, elev = 60, photo = ''c.tif''\<rparr>)],
      writes = [(''a.tif'', 10, 20, 30), (''early.tif'', 20, 40, 60), (''c.tif'', 20, 40, 60)],
      raised = None\<rparr>"
  by code_simp




subsection \<open>Interpolation\<close>


























end
